theory Spec2Isabelle
  imports Complex_Main "HOL-Library.Multiset"
begin

section \<open>Data model\<close>

text \<open>
  Amounts are Python floats (SQLite \<open>REAL\<close>, pandas \<open>float64\<close>) mixed with the integer
  literal \<open>0\<close>. Every finite float is a rational number, so amounts are modelled as
  \<^typ>\<open>rat\<close> and the four operations as the exact ones: rounding, overflow to infinity
  and NaN are outside this model. The decimal constants of the source are written as they
  stand (\<open>0.9\<close> is the rational \<open>9/10\<close>).
\<close>

type_synonym amount = rat

text \<open>
  A row as the aggregation code reads it: \<open>row["category"]\<close> and \<open>row["amount"]\<close>.
  The tables of \<open>database.py\<close> extend it with their other columns. The columns of the
  key are taken as the values the application passes (an integer user id, strings);
  the \<open>id\<close> column of \<open>budgets\<close> is never selected by any query and is left out.
\<close>

record 'n entry =
  category :: string
  amount :: 'n

record 'n budget_entry = "'n entry" +
  user_id :: int
  month :: string

record 'n expense_entry = "'n budget_entry" +
  id_col :: int
  timestamp :: string

text \<open>Rows of the per-user, per-month CSV table of the flat-file application.\<close>

record 'n flat_row = "'n entry" +
  row_type :: string

text \<open>Exceptions of the Python code that the model makes explicit.\<close>

datatype py_error = ZeroDivisionError | KeyError | ValueError | OverflowError

text \<open>The three dictionary keys \<open>"Needs"\<close>, \<open>"Wants"\<close>, \<open>"Savings"\<close>.\<close>

datatype bucket = Needs | Wants | Savings

text \<open>
  A Python \<open>dict\<close> keeps its keys in insertion order, and assigning to a key that is
  present keeps the key's position: an association list updated in place.
\<close>

type_synonym 'v dict = "(bucket \<times> 'v) list"

fun dict_get :: "'v dict \<Rightarrow> bucket \<Rightarrow> py_error + 'v" where
  "dict_get [] k = Inl KeyError"
| "dict_get ((k', v) # d) k = (if k' = k then Inr v else dict_get d k)"

fun dict_set :: "'v dict \<Rightarrow> bucket \<Rightarrow> 'v \<Rightarrow> 'v dict" where
  "dict_set [] k v = [(k, v)]"
| "dict_set ((k', v') # d) k v = (if k' = k then (k, v) # d else (k', v') # dict_set d k v)"

text \<open>\<open>d[k] += x\<close>: reads the key first, so a missing key raises.\<close>

definition dict_iadd :: "amount dict \<Rightarrow> bucket \<Rightarrow> amount \<Rightarrow> py_error + amount dict" where
  "dict_iadd d k x = (case dict_get d k of Inl e \<Rightarrow> Inl e | Inr v \<Rightarrow> Inr (dict_set d k (v + x)))"

definition keys :: "'v dict \<Rightarrow> bucket list" where
  "keys d = map fst d"

definition values_of :: "'v dict \<Rightarrow> 'v list" where
  "values_of d = map snd d"

text \<open>True division \<open>a / b\<close> of Python.\<close>

definition py_div :: "amount \<Rightarrow> amount \<Rightarrow> py_error + amount" where
  "py_div a b = (if b = 0 then Inl ZeroDivisionError else Inr (a / b))"

section \<open>Classifier\<close>

definition needs :: "string list" where
  "needs = [''Housing'', ''Utilities'', ''Groceries'', ''Transportation'', ''Healthcare'',
            ''Insurance'', ''Debt Payments'']"

definition wants :: "string list" where
  "wants = [''Entertainment'']"

definition savings :: "string list" where
  "savings = [''Savings'', ''Education'']"

text \<open>
  The \<open>if\<close>/\<open>elif\<close> chain inside the loop over the expenses, which selects the key
  that the row's amount is added to. Both applications contain the same chain.
\<close>

definition classify :: "string \<Rightarrow> bucket" where
  "classify c =
     (if c \<in> set needs then Needs
      else if c \<in> set wants then Wants
      else if c \<in> set savings then Savings
      else Wants)"

section \<open>Allocation-rule report (50/30/20)\<close>

text \<open>
  The labels appended to \<open>status\<close>: "Under Budget", "At Limit" and "Over Budget", each
  after a coloured-circle glyph in the source.
\<close>

datatype rule_status = Under_Budget | At_Limit | Over_Budget

text \<open>The columns of \<open>analysis_df\<close>.\<close>

record 'n analysis_df =
  Category_col :: "bucket list"
  Limit_col :: "'n list"
  Actual_col :: "'n list"
  Status_col :: "rule_status list"

text \<open>
  What a page run ends in: \<open>st.warning(msg)\<close> followed by \<open>st.stop()\<close>, or the
  data it renders.
\<close>

datatype 'a page = Stopped string | Rendered 'a

definition limits :: "amount \<Rightarrow> amount dict" where
  "limits total_budget =
     [(Needs, total_budget * 0.50), (Wants, total_budget * 0.30), (Savings, total_budget * 0.20)]"

text \<open>The loop \<open>for row in actuals\<close>: each branch of the chain is \<open>categorized[key] += row["amount"]\<close>.\<close>

fun categorize :: "(amount, 'a) entry_scheme list \<Rightarrow> amount dict \<Rightarrow> py_error + amount dict" where
  "categorize [] categorized = Inr categorized"
| "categorize (row # rows) categorized =
     (case dict_iadd categorized (classify (category row)) (amount row) of
        Inl e \<Rightarrow> Inl e
      | Inr categorized' \<Rightarrow> categorize rows categorized')"

definition ratio_status :: "amount \<Rightarrow> rule_status" where
  "ratio_status ratio =
     (if ratio \<le> 0.9 then Under_Budget
      else if ratio \<le> 1.0 then At_Limit
      else Over_Budget)"

text \<open>The loop \<open>for k in categorized\<close>, appending to \<open>status\<close>.\<close>

fun status_loop :: "bucket list \<Rightarrow> amount dict \<Rightarrow> amount dict \<Rightarrow> rule_status list
    \<Rightarrow> py_error + rule_status list" where
  "status_loop [] categorized lims status = Inr status"
| "status_loop (k # ks) categorized lims status =
     (case dict_get categorized k of
        Inl e \<Rightarrow> Inl e
      | Inr a \<Rightarrow>
          (case dict_get lims k of
             Inl e \<Rightarrow> Inl e
           | Inr l \<Rightarrow>
               (case py_div a l of
                  Inl e \<Rightarrow> Inl e
                | Inr ratio \<Rightarrow> status_loop ks categorized lims (status @ [ratio_status ratio]))))"

text \<open>\<open>pd.DataFrame\<close> of four columns: columns of unequal length raise.\<close>

definition data_frame :: "bucket list \<Rightarrow> 'n list \<Rightarrow> 'n list \<Rightarrow> rule_status list
    \<Rightarrow> py_error + 'n analysis_df" where
  "data_frame cs ls as ss =
     (if length ls = length cs \<and> length as = length cs \<and> length ss = length cs
      then Inr \<lparr>Category_col = cs, Limit_col = ls, Actual_col = as, Status_col = ss\<rparr>
      else Inl ValueError)"

text \<open>
  The report page of the database application. \<open>budget\<close> and \<open>actuals\<close> are the rows
  returned by \<open>get_budget\<close> and \<open>get_expenses\<close> for the user and month.
\<close>

definition report_50_30_20 ::
    "(amount, 'a) entry_scheme list \<Rightarrow> (amount, 'b) entry_scheme list \<Rightarrow> py_error + amount analysis_df page" where
  "report_50_30_20 budget actuals =
     (let total_budget = sum_list (map amount budget) in
      if total_budget = 0
      then Inr (Stopped ''Please set your monthly budget to see analysis.'')
      else
        let lims = limits total_budget in
        case categorize actuals [(Needs, 0), (Wants, 0), (Savings, 0)] of
          Inl e \<Rightarrow> Inl e
        | Inr categorized \<Rightarrow>
            (case status_loop (keys categorized) categorized lims [] of
               Inl e \<Rightarrow> Inl e
             | Inr status \<Rightarrow>
                 (case data_frame [Needs, Wants, Savings] (values_of lims)
                         (values_of categorized) status of
                    Inl e \<Rightarrow> Inl e
                  | Inr df \<Rightarrow> Inr (Rendered df))))"

text \<open>
  The report page of the flat-file application: the same guard, limits and loop, then a
  bar chart of \<open>categorized\<close> against \<open>limits\<close>; it computes no status.
\<close>

record 'n chart =
  bars_actual :: "'n dict"
  bars_target :: "'n dict"

definition report_50_30_20_flat ::
    "(amount, 'a) entry_scheme list \<Rightarrow> (amount, 'b) entry_scheme list \<Rightarrow> py_error + amount chart page" where
  "report_50_30_20_flat budget_df actual_df =
     (let total_income = sum_list (map amount budget_df) in
      if total_income = 0
      then Inr (Stopped ''Please define a monthly budget to perform analysis.'')
      else
        let lims = limits total_income in
        case categorize actual_df [(Needs, 0), (Wants, 0), (Savings, 0)] of
          Inl e \<Rightarrow> Inl e
        | Inr categorized \<Rightarrow> Inr (Rendered \<lparr>bars_actual = categorized, bars_target = lims\<rparr>))"

text \<open>
  For stating the properties: the sum of the amounts of the rows that the chain sends
  to bucket \<open>k\<close>.
\<close>

definition bucket_sum :: "bucket \<Rightarrow> (amount, 'a) entry_scheme list \<Rightarrow> amount" where
  "bucket_sum k rows = sum_list (map amount (filter (\<lambda>row. classify (category row) = k) rows))"

section \<open>Record store\<close>

text \<open>
  A function of \<open>database.py\<close> takes the table and gives back what the caller receives
  (\<open>Inr ()\<close> is the return value \<open>None\<close>) and the table after the statement.
\<close>

type_synonym 'r db_call = "'r list \<Rightarrow> (py_error + unit) \<times> 'r list"

text \<open>The conflict target of the upsert, \<open>UNIQUE(user_id, month, category)\<close>.\<close>

definition budget_key :: "'n budget_entry \<Rightarrow> int \<times> string \<times> string" where
  "budget_key r = (user_id r, month r, category r)"

text \<open>
  \<open>INSERT ... ON CONFLICT(user_id, month, category) DO UPDATE SET amount = excluded.amount\<close>.
\<close>

definition save_budget :: "int \<Rightarrow> string \<Rightarrow> string \<Rightarrow> 'n \<Rightarrow> 'n budget_entry db_call" where
  "save_budget u m c a budgets =
     (Inr (),
      if \<exists>r \<in> set budgets. budget_key r = (u, m, c)
      then map (\<lambda>r. if budget_key r = (u, m, c) then r\<lparr>amount := a\<rparr> else r) budgets
      else budgets @ [\<lparr>category = c, amount = a, user_id = u, month = m\<rparr>])"

text \<open>
  An integer parameter of a statement is bound as a 64-bit SQLite \<open>INTEGER\<close>: for a Python
  integer outside that range the \<open>sqlite3\<close> module raises \<open>OverflowError\<close> when it binds
  the parameters, before the statement runs.
\<close>

definition sqlite_integer :: "int \<Rightarrow> bool" where
  "sqlite_integer n = (- (2 ^ 63) \<le> n \<and> n < 2 ^ 63)"

text \<open>\<open>UPDATE expenses SET amount = ? WHERE id = ?\<close>.\<close>

definition update_expense :: "int \<Rightarrow> 'n \<Rightarrow> 'n expense_entry db_call" where
  "update_expense expense_id new_amount expenses =
     (if sqlite_integer expense_id
      then (Inr (), map (\<lambda>r. if id_col r = expense_id then r\<lparr>amount := new_amount\<rparr> else r) expenses)
      else (Inl OverflowError, expenses))"

text \<open>\<open>DELETE FROM expenses WHERE id = ?\<close>.\<close>

definition delete_expense :: "int \<Rightarrow> 'n expense_entry db_call" where
  "delete_expense expense_id expenses =
     (if sqlite_integer expense_id
      then (Inr (), filter (\<lambda>r. id_col r \<noteq> expense_id) expenses)
      else (Inl OverflowError, expenses))"

text \<open>
  The budget form of the flat-file application. \<open>budget_df\<close> is the selection
  \<open>df[df["type"] == "budget"]\<close> made when the page loads; the loop tests it and
  updates \<open>df\<close>, which \<open>save_data\<close> then writes back. \<open>categories\<close> pairs each selected
  category with the amount entered for it.
\<close>

definition budget_row_for :: "string \<Rightarrow> 'n flat_row \<Rightarrow> bool" where
  "budget_row_for cat r = (category r = cat \<and> row_type r = ''budget'')"

fun set_budget_loop ::
    "'n flat_row list \<Rightarrow> (string \<times> 'n) list \<Rightarrow> 'n flat_row list \<Rightarrow> 'n flat_row list" where
  "set_budget_loop budget_df [] df = df"
| "set_budget_loop budget_df ((cat, amt) # categories) df =
     set_budget_loop budget_df categories
       (if \<exists>r \<in> set budget_df. budget_row_for cat r
        then map (\<lambda>r. if budget_row_for cat r then r\<lparr>amount := amt\<rparr> else r) df
        else df @ [\<lparr>category = cat, amount = amt, row_type = ''budget''\<rparr>])"

definition set_monthly_budget ::
    "(string \<times> 'n) list \<Rightarrow> 'n flat_row list \<Rightarrow> 'n flat_row list" where
  "set_monthly_budget categories df =
     set_budget_loop (filter (\<lambda>r. row_type r = ''budget'') df) categories df"

text \<open>For stating the properties: the categories of the budget rows of the table.\<close>

definition budget_categories :: "'n flat_row list \<Rightarrow> string list" where
  "budget_categories df = map category (filter (\<lambda>r. row_type r = ''budget'') df)"

text \<open>
  For stating and proving the properties: what the form does to a row that was in the
  table, and the row it appends for a category that had no budget row.
\<close>

definition form_update :: "(string \<times> 'n) list \<Rightarrow> 'n flat_row \<Rightarrow> 'n flat_row" where
  "form_update categories r =
     (if row_type r = ''budget''
      then (case map_of categories (category r) of Some amt \<Rightarrow> r\<lparr>amount := amt\<rparr> | None \<Rightarrow> r)
      else r)"

definition new_budget_row :: "string \<times> 'n \<Rightarrow> 'n flat_row" where
  "new_budget_row p = \<lparr>category = fst p, amount = snd p, row_type = ''budget''\<rparr>"

section \<open>Example data\<close>

definition ex_budget :: "amount entry list" where
  "ex_budget = [\<lparr>category = ''Housing'', amount = 600\<rparr>, \<lparr>category = ''Savings'', amount = 400\<rparr>]"

definition ex_actuals :: "amount entry list" where
  "ex_actuals = [\<lparr>category = ''Housing'', amount = 450\<rparr>, \<lparr>category = ''Dining'', amount = 300\<rparr>,
                 \<lparr>category = ''Education'', amount = 250\<rparr>]"

definition ex_budgets :: "amount budget_entry list" where
  "ex_budgets = [\<lparr>category = ''Housing'', amount = 900, user_id = 1, month = ''2024-05''\<rparr>,
                 \<lparr>category = ''Housing'', amount = 700, user_id = 2, month = ''2024-05''\<rparr>]"

definition ex_df :: "amount flat_row list" where
  "ex_df = [\<lparr>category = ''Housing'', amount = 900, row_type = ''budget''\<rparr>,
            \<lparr>category = ''Housing'', amount = 20, row_type = ''actual''\<rparr>]"

definition ex_expenses :: "amount expense_entry list" where
  "ex_expenses =
     [\<lparr>category = ''Housing'', amount = 20, user_id = 1, month = ''2024-05'', id_col = 1,
        timestamp = ''2024-05-02T09:30:00''\<rparr>,
      \<lparr>category = ''Groceries'', amount = 35, user_id = 1, month = ''2024-05'', id_col = 2,
        timestamp = ''2024-05-03T18:05:00''\<rparr>]"

section \<open>Classifier: properties\<close>

text \<open>
  Claim C2. \<open>classify\<close> sends Housing, Utilities, Groceries, Transportation, Healthcare,
  Insurance and Debt Payments to Needs, Entertainment to Wants, Savings and Education to
  Savings, and every other string to Wants; the match is exact and case-sensitive. The
  function is defined on every string and has no error result.
\<close>

theorem classify_table:
  "classify ''Housing'' = Needs \<and> classify ''Utilities'' = Needs \<and>
   classify ''Groceries'' = Needs \<and> classify ''Transportation'' = Needs \<and>
   classify ''Healthcare'' = Needs \<and> classify ''Insurance'' = Needs \<and>
   classify ''Debt Payments'' = Needs \<and> classify ''Entertainment'' = Wants \<and>
   classify ''Savings'' = Savings \<and> classify ''Education'' = Savings \<and>
   (c \<notin> {''Housing'', ''Utilities'', ''Groceries'', ''Transportation'', ''Healthcare'',
          ''Insurance'', ''Debt Payments'', ''Entertainment'', ''Savings'', ''Education''}
      \<longrightarrow> classify c = Wants)"
  by (simp add: classify_def needs_def wants_def savings_def)

theorem classify_table_witness:
  "''housing'' \<notin> {''Housing'', ''Utilities'', ''Groceries'', ''Transportation'',
        ''Healthcare'', ''Insurance'', ''Debt Payments'', ''Entertainment'', ''Savings'',
        ''Education''} \<and> classify ''housing'' = Wants \<and> classify ''Housing'' = Needs"
  using classify_table [of "''housing''"] by simp

section \<open>Allocation-rule report: properties\<close>


lemma dict_iadd3:
  "dict_iadd [(Needs, a), (Wants, b), (Savings, c)] k x =
     Inr [(Needs, if k = Needs then a + x else a), (Wants, if k = Wants then b + x else b),
          (Savings, if k = Savings then c + x else c)]"
  by (cases k) (simp_all add: dict_iadd_def)

lemma categorize3:
  "categorize rows [(Needs, a), (Wants, b), (Savings, c)] =
     Inr [(Needs, a + bucket_sum Needs rows), (Wants, b + bucket_sum Wants rows),
          (Savings, c + bucket_sum Savings rows)]"
proof (induction rows arbitrary: a b c)
  case Nil
  show ?case by (simp add: bucket_sum_def)
next
  case (Cons row rows)
  show ?case
    by (cases "classify (category row)") (simp_all add: dict_iadd3 Cons.IH bucket_sum_def)
qed

lemma bucket_sum_total:
  "bucket_sum Needs rows + bucket_sum Wants rows + bucket_sum Savings rows = sum_list (map amount rows)"
proof (induction rows)
  case Nil
  show ?case by (simp add: bucket_sum_def)
next
  case (Cons row rows)
  then show ?case
    by (cases "classify (category row)") (simp_all add: bucket_sum_def)
qed

lemma report_rendered:
  assumes "sum_list (map amount budget) \<noteq> 0"
  shows "report_50_30_20 budget actuals =
     Inr (Rendered \<lparr>Category_col = [Needs, Wants, Savings],
        Limit_col = [sum_list (map amount budget) * 0.50, sum_list (map amount budget) * 0.30,
                     sum_list (map amount budget) * 0.20],
        Actual_col = [bucket_sum Needs actuals, bucket_sum Wants actuals, bucket_sum Savings actuals],
        Status_col = [ratio_status (bucket_sum Needs actuals / (sum_list (map amount budget) * 0.50)),
                      ratio_status (bucket_sum Wants actuals / (sum_list (map amount budget) * 0.30)),
                      ratio_status (bucket_sum Savings actuals / (sum_list (map amount budget) * 0.20))]\<rparr>)"
  using assms
  by (simp add: report_50_30_20_def Let_def categorize3 limits_def keys_def values_of_def py_div_def data_frame_def)


lemma report_flat_rendered:
  assumes "sum_list (map amount budget_df) \<noteq> 0"
  shows "report_50_30_20_flat budget_df actual_df =
     Inr (Rendered \<lparr>bars_actual = [(Needs, bucket_sum Needs actual_df),
            (Wants, bucket_sum Wants actual_df), (Savings, bucket_sum Savings actual_df)],
          bars_target = limits (sum_list (map amount budget_df))\<rparr>)"
  using assms by (simp add: report_50_30_20_flat_def Let_def categorize3)

lemma report_stopped:
  assumes "sum_list (map amount budget) = 0"
  shows "report_50_30_20 budget actuals =
     Inr (Stopped ''Please set your monthly budget to see analysis.'')"
  using assms by (simp add: report_50_30_20_def)

lemma report_rendered_iff:
  "report_50_30_20 budget actuals = Inr (Rendered df) \<Longrightarrow> sum_list (map amount budget) \<noteq> 0"
  by (auto simp: report_stopped)

lemma ex_report:
  "report_50_30_20 ex_budget ex_actuals =
     Inr (Rendered \<lparr>Category_col = [Needs, Wants, Savings], Limit_col = [500, 300, 200],
        Actual_col = [450, 300, 250], Status_col = [Under_Budget, At_Limit, Over_Budget]\<rparr>)"
  by (simp add: report_50_30_20_def Let_def ex_budget_def ex_actuals_def limits_def keys_def
      values_of_def py_div_def data_frame_def dict_iadd_def classify_def needs_def wants_def
      savings_def ratio_status_def)


lemma ex_report_flat:
  "report_50_30_20_flat ex_budget ex_actuals =
     Inr (Rendered \<lparr>bars_actual = [(Needs, 450), (Wants, 300), (Savings, 250)],
        bars_target = [(Needs, 500), (Wants, 300), (Savings, 200)]\<rparr>)"
  by (simp add: report_50_30_20_flat_def Let_def ex_budget_def ex_actuals_def limits_def
      dict_iadd_def classify_def needs_def wants_def savings_def)

text \<open>
  Claim C4. When the total budget is zero (in particular with no budget rows) both report
  pages end in the prompt to set a budget: the result is not an exception, no division is
  evaluated and no status is produced.
\<close>

theorem zero_budget_not_computable:
  assumes "sum_list (map amount budget) = 0"
  shows "report_50_30_20 budget actuals =
       Inr (Stopped ''Please set your monthly budget to see analysis.'') \<and>
     report_50_30_20_flat budget actuals =
       Inr (Stopped ''Please define a monthly budget to perform analysis.'')"
  using assms by (simp add: report_50_30_20_def report_50_30_20_flat_def)

theorem zero_budget_not_computable_witness:
  "sum_list (map amount ([] :: amount entry list)) = 0 \<and>
   report_50_30_20 ([] :: amount entry list) ex_actuals =
     Inr (Stopped ''Please set your monthly budget to see analysis.'') \<and>
   report_50_30_20_flat ([] :: amount entry list) ex_actuals =
     Inr (Stopped ''Please define a monthly budget to perform analysis.'')"
  using zero_budget_not_computable [of "[] :: amount entry list" ex_actuals] by simp

text \<open>
  Claim C10. The three limits add up to the total budget exactly, in the dictionary
  \<open>limits\<close>, in the limit column of the rendered report and in the target bars of the
  flat-file report.
\<close>

theorem limits_partition_total:
  "sum_list (values_of (limits total_budget)) = total_budget \<and>
   (report_50_30_20 budget actuals = Inr (Rendered df) \<longrightarrow>
      sum_list (Limit_col df) = sum_list (map amount budget)) \<and>
   (report_50_30_20_flat budget actuals = Inr (Rendered ch) \<longrightarrow>
      sum_list (values_of (bars_target ch)) = sum_list (map amount budget))"
proof (intro conjI impI)
  show "sum_list (values_of (limits total_budget)) = total_budget"
    by (simp add: limits_def values_of_def)
next
  assume r: "report_50_30_20 budget actuals = Inr (Rendered df)"
  then have "sum_list (map amount budget) \<noteq> 0" by (rule report_rendered_iff)
  from r [unfolded report_rendered [OF this]]
  show "sum_list (Limit_col df) = sum_list (map amount budget)" by auto
next
  assume r: "report_50_30_20_flat budget actuals = Inr (Rendered ch)"
  then have "sum_list (map amount budget) \<noteq> 0"
    by (auto simp: report_50_30_20_flat_def)
  from r [unfolded report_flat_rendered [OF this]]
  show "sum_list (values_of (bars_target ch)) = sum_list (map amount budget)"
    by (auto simp: values_of_def limits_def)
qed

theorem limits_partition_total_witness:
  "report_50_30_20 ex_budget ex_actuals =
     Inr (Rendered \<lparr>Category_col = [Needs, Wants, Savings], Limit_col = [500, 300, 200],
        Actual_col = [450, 300, 250], Status_col = [Under_Budget, At_Limit, Over_Budget]\<rparr>) \<and>
   report_50_30_20_flat ex_budget ex_actuals =
     Inr (Rendered \<lparr>bars_actual = [(Needs, 450), (Wants, 300), (Savings, 250)],
        bars_target = [(Needs, 500), (Wants, 300), (Savings, 200)]\<rparr>) \<and>
   sum_list [500, 300, 200] = sum_list (map amount ex_budget)"
  using limits_partition_total [of 1000 ex_budget ex_actuals
      "\<lparr>Category_col = [Needs, Wants, Savings], Limit_col = [500, 300, 200],
        Actual_col = [450, 300, 250], Status_col = [Under_Budget, At_Limit, Over_Budget]\<rparr>"
      "\<lparr>bars_actual = [(Needs, 450), (Wants, 300), (Savings, 250)],
        bars_target = [(Needs, 500), (Wants, 300), (Savings, 200)]\<rparr>"]
    ex_report ex_report_flat
  by simp

section \<open>Record store: budgets\<close>

lemma budget_key_amount [simp]: "budget_key (r\<lparr>amount := a\<rparr>) = budget_key r"
  by (simp add: budget_key_def)

lemma upsert_keys:
  "map budget_key (map (\<lambda>r. if budget_key r = k then r\<lparr>amount := a\<rparr> else r) budgets) =
     map budget_key budgets"
  by (induction budgets) auto

lemma upsert_hit:
  assumes "distinct (map budget_key budgets)" and "k \<in> set (map budget_key budgets)"
  shows "map amount (filter (\<lambda>r. budget_key r = k)
           (map (\<lambda>r. if budget_key r = k then r\<lparr>amount := a\<rparr> else r) budgets)) = [a]"
  using assms
proof (induction budgets)
  case Nil
  then show ?case by simp
next
  case (Cons r budgets)
  show ?case
  proof (cases "budget_key r = k")
    case True
    with Cons.prems have "k \<notin> budget_key ` set budgets" by simp
    then have "\<forall>x \<in> set budgets. budget_key x \<noteq> k" by blast
    then have "filter (\<lambda>r. budget_key r = k)
           (map (\<lambda>r. if budget_key r = k then r\<lparr>amount := a\<rparr> else r) budgets) = []"
      by (auto simp: filter_empty_conv)
    with True show ?thesis by simp
  next
    case False
    with Cons show ?thesis by auto
  qed
qed

lemma upsert_others:
  "filter (\<lambda>r. budget_key r \<noteq> k)
     (map (\<lambda>r. if budget_key r = k then r\<lparr>amount := a\<rparr> else r) budgets) =
   filter (\<lambda>r. budget_key r \<noteq> k) budgets"
  by (induction budgets) auto

lemma upsert_twice:
  "map (\<lambda>r. if budget_key r = k then r\<lparr>amount := a\<rparr> else r)
     (map (\<lambda>r. if budget_key r = k then r\<lparr>amount := a\<rparr> else r) budgets) =
   map (\<lambda>r. if budget_key r = k then r\<lparr>amount := a\<rparr> else r) budgets"
  by (induction budgets) auto

lemma upsert_miss:
  "\<forall>r \<in> set budgets. budget_key r \<noteq> k \<Longrightarrow>
   map (\<lambda>r. if budget_key r = k then r\<lparr>amount := a\<rparr> else r) budgets = budgets"
  by (induction budgets) auto

lemma save_budget_hit:
  assumes "\<exists>r \<in> set budgets. budget_key r = (u, m, c)"
  shows "save_budget u m c a budgets =
     (Inr (), map (\<lambda>r. if budget_key r = (u, m, c) then r\<lparr>amount := a\<rparr> else r) budgets)"
  using assms unfolding save_budget_def by (simp only: if_True)

lemma save_budget_miss:
  assumes "\<not> (\<exists>r \<in> set budgets. budget_key r = (u, m, c))"
  shows "save_budget u m c a budgets =
     (Inr (), budgets @ [\<lparr>category = c, amount = a, user_id = u, month = m\<rparr>])"
  using assms unfolding save_budget_def by (simp only: if_False)

lemma save_budget_idem:
  "save_budget u m c a (snd (save_budget u m c a budgets)) = save_budget u m c a budgets"
proof (cases "\<exists>r \<in> set budgets. budget_key r = (u, m, c)")
  case True
  let ?f = "\<lambda>r. if budget_key r = (u, m, c) then r\<lparr>amount := a\<rparr> else r"
  from True obtain r where r: "r \<in> set budgets" "budget_key r = (u, m, c)" by blast
  then have "?f r \<in> set (map ?f budgets)" and "budget_key (?f r) = (u, m, c)"
    by simp_all
  then have "\<exists>r \<in> set (map ?f budgets). budget_key r = (u, m, c)" by blast
  from save_budget_hit [OF this, of a] show ?thesis
    unfolding save_budget_hit [OF True] snd_conv by (simp only: upsert_twice)
next
  case False
  let ?new = "\<lparr>category = c, amount = a, user_id = u, month = m\<rparr>"
  let ?f = "\<lambda>r. if budget_key r = (u, m, c) then r\<lparr>amount := a\<rparr> else r"
  have "budget_key ?new = (u, m, c)" by (simp add: budget_key_def)
  then have "\<exists>r \<in> set (budgets @ [?new]). budget_key r = (u, m, c)" by simp
  from save_budget_hit [OF this]
  have "save_budget u m c a (budgets @ [?new]) = (Inr (), map ?f (budgets @ [?new]))" .
  moreover have "map ?f budgets = budgets"
    using False by (intro upsert_miss) blast
  moreover have "?f ?new = ?new" by simp
  ultimately show ?thesis
    unfolding save_budget_miss [OF False] snd_conv by simp
qed

lemma save_budget_table:
  assumes "distinct (map budget_key budgets)"
  shows "fst (save_budget u m c a budgets) = Inr () \<and>
     distinct (map budget_key (snd (save_budget u m c a budgets))) \<and>
     map amount (filter (\<lambda>r. budget_key r = (u, m, c)) (snd (save_budget u m c a budgets))) = [a] \<and>
     filter (\<lambda>r. budget_key r \<noteq> (u, m, c)) (snd (save_budget u m c a budgets)) =
       filter (\<lambda>r. budget_key r \<noteq> (u, m, c)) budgets \<and>
     length (snd (save_budget u m c a budgets)) =
       (if (u, m, c) \<in> set (map budget_key budgets) then length budgets else length budgets + 1) \<and>
     save_budget u m c a (snd (save_budget u m c a budgets)) = save_budget u m c a budgets"
proof (cases "\<exists>r \<in> set budgets. budget_key r = (u, m, c)")
  case True
  then have k: "(u, m, c) \<in> set (map budget_key budgets)" by force
  note s = save_budget_hit [OF True, of a]
  have c1: "fst (save_budget u m c a budgets) = Inr ()"
    unfolding s by simp
  have c2: "distinct (map budget_key (snd (save_budget u m c a budgets)))"
    unfolding s snd_conv upsert_keys by (rule assms)
  have c3: "map amount (filter (\<lambda>r. budget_key r = (u, m, c))
      (snd (save_budget u m c a budgets))) = [a]"
    unfolding s snd_conv by (rule upsert_hit [OF assms k])
  have c4: "filter (\<lambda>r. budget_key r \<noteq> (u, m, c)) (snd (save_budget u m c a budgets)) =
       filter (\<lambda>r. budget_key r \<noteq> (u, m, c)) budgets"
    unfolding s snd_conv by (rule upsert_others)
  have c5: "length (snd (save_budget u m c a budgets)) =
       (if (u, m, c) \<in> set (map budget_key budgets) then length budgets else length budgets + 1)"
    unfolding s snd_conv using k by simp
  show ?thesis
    using c1 c2 c3 c4 c5 save_budget_idem [of u m c a budgets] by blast
next
  case False
  then have k: "(u, m, c) \<notin> set (map budget_key budgets)" by force
  note s = save_budget_miss [OF False, of a]
  have none: "filter (\<lambda>r. budget_key r = (u, m, c)) budgets = []"
    using False by (auto simp: filter_empty_conv)
  have all: "filter (\<lambda>r. budget_key r \<noteq> (u, m, c)) budgets = budgets"
    using False by (auto simp: filter_id_conv)
  have c1: "fst (save_budget u m c a budgets) = Inr ()"
    unfolding s by simp
  have c2: "distinct (map budget_key (snd (save_budget u m c a budgets)))"
    unfolding s snd_conv using assms k by (simp add: budget_key_def)
  have c3: "map amount (filter (\<lambda>r. budget_key r = (u, m, c))
      (snd (save_budget u m c a budgets))) = [a]"
    unfolding s snd_conv using none by (simp add: budget_key_def)
  have c4: "filter (\<lambda>r. budget_key r \<noteq> (u, m, c)) (snd (save_budget u m c a budgets)) =
       filter (\<lambda>r. budget_key r \<noteq> (u, m, c)) budgets"
    unfolding s snd_conv using all by (simp add: budget_key_def)
  have c5: "length (snd (save_budget u m c a budgets)) =
       (if (u, m, c) \<in> set (map budget_key budgets) then length budgets else length budgets + 1)"
    unfolding s snd_conv using k by simp
  show ?thesis
    using c1 c2 c3 c4 c5 save_budget_idem [of u m c a budgets] by blast
qed


lemma budget_row_for_amount [simp]: "budget_row_for cat (r\<lparr>amount := a\<rparr>) = budget_row_for cat r"
  by (simp add: budget_row_for_def)

lemma bex_budget_row:
  "(\<exists>r \<in> set (filter (\<lambda>r. row_type r = ''budget'') df). budget_row_for cat r) \<longleftrightarrow>
     cat \<in> set (budget_categories df)"
  by (auto simp: budget_row_for_def budget_categories_def)

lemma bex_budget_row_df:
  "(\<exists>r \<in> set df. budget_row_for cat r) \<longleftrightarrow> cat \<in> set (budget_categories df)"
  by (auto simp: budget_row_for_def budget_categories_def)

lemma budget_categories_filter:
  "budget_categories (filter (\<lambda>r. row_type r = ''budget'') df) = budget_categories df"
  by (simp add: budget_categories_def)

lemma budget_categories_update:
  "budget_categories (map (\<lambda>r. if budget_row_for cat r then r\<lparr>amount := amt\<rparr> else r) df) =
     budget_categories df"
  by (induction df) (auto simp: budget_categories_def)

lemma budget_categories_append:
  "budget_categories (df @ [\<lparr>category = cat, amount = amt, row_type = ''budget''\<rparr>]) =
     budget_categories df @ [cat]"
  by (simp add: budget_categories_def)

lemma set_budget_loop_categories:
  "budget_categories (set_budget_loop budget_df categories df) =
     budget_categories df @
       filter (\<lambda>cat. \<not> (\<exists>r \<in> set budget_df. budget_row_for cat r)) (map fst categories)"
proof (induction categories arbitrary: df)
  case Nil
  show ?case by simp
next
  case (Cons p categories)
  obtain cat amt where p: "p = (cat, amt)" by (cases p)
  show ?case
    unfolding p by (simp add: Cons.IH budget_categories_update budget_categories_append)
qed

lemma set_monthly_budget_distinct:
  assumes "distinct (map fst categories)" and "distinct (budget_categories df)"
  shows "distinct (budget_categories (set_monthly_budget categories df))"
proof -
  have "budget_categories (set_monthly_budget categories df) =
      budget_categories df @ filter (\<lambda>cat. cat \<notin> set (budget_categories df)) (map fst categories)"
    unfolding set_monthly_budget_def set_budget_loop_categories bex_budget_row ..
  then show ?thesis using assms by auto
qed

lemma form_update_fields [simp]:
  "category (form_update ps r) = category r" "row_type (form_update ps r) = row_type r"
  by (simp_all add: form_update_def split: option.splits)

lemma form_update_step:
  assumes "cat \<notin> fst ` set ps"
  shows "form_update ps (if budget_row_for cat r then r\<lparr>amount := amt\<rparr> else r) =
     form_update ((cat, amt) # ps) r"
proof -
  have "map_of ps cat = None"
    using assms by (simp add: map_of_eq_None_iff)
  then show ?thesis
    by (auto simp: form_update_def budget_row_for_def split: option.splits)
qed

lemma form_update_new:
  assumes "cat \<notin> fst ` set ps"
  shows "form_update ps \<lparr>category = cat, amount = amt, row_type = ''budget''\<rparr> =
     \<lparr>category = cat, amount = amt, row_type = ''budget''\<rparr>"
proof -
  have "map_of ps cat = None"
    using assms by (simp add: map_of_eq_None_iff)
  then show ?thesis by (simp add: form_update_def)
qed

lemma set_budget_loop_explicit:
  assumes "distinct (map fst categories)"
  shows "set_budget_loop budget_df categories df =
     map (form_update (filter (\<lambda>p. \<exists>r \<in> set budget_df. budget_row_for (fst p) r) categories)) df @
     map new_budget_row (filter (\<lambda>p. \<not> (\<exists>r \<in> set budget_df. budget_row_for (fst p) r)) categories)"
  using assms
proof (induction categories arbitrary: df)
  case Nil
  have "map (form_update []) df = df"
    by (rule map_idI) (simp add: form_update_def)
  then show ?case by simp
next
  case (Cons p categories)
  obtain cat amt where p: "p = (cat, amt)" by (cases p)
  let ?hits = "filter (\<lambda>p. \<exists>r \<in> set budget_df. budget_row_for (fst p) r) categories"
  from Cons.prems have d: "distinct (map fst categories)" and n: "cat \<notin> fst ` set categories"
    by (simp_all add: p)
  from n have nh: "cat \<notin> fst ` set ?hits" by auto
  show ?case
  proof (cases "\<exists>r \<in> set budget_df. budget_row_for cat r")
    case True
    then show ?thesis
      unfolding p by (simp add: Cons.IH [OF d] form_update_step [OF nh] o_def)
  next
    case False
    then show ?thesis
      unfolding p by (simp add: Cons.IH [OF d] form_update_new [OF nh] new_budget_row_def)
  qed
qed

lemma map_of_filter_fst:
  "map_of (filter (\<lambda>p. Q (fst p)) ps) c = (if Q c then map_of ps c else None)"
  by (induction ps) auto

lemma set_monthly_budget_explicit:
  assumes "distinct (map fst categories)"
  shows "set_monthly_budget categories df =
     map (form_update categories) df @
     map new_budget_row (filter (\<lambda>p. fst p \<notin> set (budget_categories df)) categories)"
proof -
  let ?hits = "filter (\<lambda>p. fst p \<in> set (budget_categories df)) categories"
  have "form_update ?hits r = form_update categories r" if "r \<in> set df" for r
  proof (cases "row_type r = ''budget''")
    case True
    with that have "category r \<in> set (budget_categories df)"
      by (auto simp: budget_categories_def)
    then have "map_of ?hits (category r) = map_of categories (category r)"
      using map_of_filter_fst [of "\<lambda>c. c \<in> set (budget_categories df)" categories "category r"]
      by simp
    then show ?thesis by (simp add: form_update_def)
  next
    case False
    then show ?thesis by (simp add: form_update_def)
  qed
  then have "map (form_update ?hits) df = map (form_update categories) df"
    by simp
  then show ?thesis
    unfolding set_monthly_budget_def set_budget_loop_explicit [OF assms] bex_budget_row
    by simp
qed


lemma form_update_idem: "form_update ps (form_update ps r) = form_update ps r"
  by (auto simp: form_update_def split: option.splits)

lemma budget_row_for_form_update [simp]:
  "budget_row_for cat (form_update ps r) = budget_row_for cat r"
  by (simp add: budget_row_for_def)

lemma filter_fst_distinct:
  assumes "distinct (map fst ps)" and "(c, a) \<in> set ps"
  shows "filter (\<lambda>p. fst p = c) ps = [(c, a)]"
  using assms
proof (induction ps)
  case Nil
  then show ?case by simp
next
  case (Cons p ps)
  show ?case
  proof (cases "fst p = c")
    case True
    with Cons.prems have "c \<notin> fst ` set ps" by auto
    then have "\<forall>q \<in> set ps. fst q \<noteq> c" by blast
    then have none: "filter (\<lambda>p. fst p = c) ps = []"
      by (simp add: filter_empty_conv)
    from \<open>c \<notin> fst ` set ps\<close> have "(c, a) \<notin> set ps" by force
    with Cons.prems have "p = (c, a)" by simp
    with none show ?thesis by simp
  next
    case False
    with Cons show ?thesis by auto
  qed
qed

lemma single_budget_row:
  assumes "distinct (budget_categories df)" and "cat \<in> set (budget_categories df)"
  shows "\<exists>r. filter (budget_row_for cat) df = [r]"
  using assms
proof (induction df)
  case Nil
  then show ?case by (simp add: budget_categories_def)
next
  case (Cons r df)
  show ?case
  proof (cases "budget_row_for cat r")
    case True
    with Cons.prems have "cat \<notin> set (budget_categories df)"
      by (simp add: budget_categories_def budget_row_for_def)
    then have "\<forall>x \<in> set df. \<not> budget_row_for cat x"
      using bex_budget_row_df by blast
    then have "filter (budget_row_for cat) df = []"
      by (simp add: filter_empty_conv)
    with True show ?thesis by simp
  next
    case False
    with Cons.prems have "distinct (budget_categories df)" "cat \<in> set (budget_categories df)"
      by (auto simp: budget_categories_def budget_row_for_def split: if_splits)
    with Cons.IH False show ?thesis by simp
  qed
qed

lemma set_monthly_budget_amounts:
  assumes "distinct (map fst categories)" and "distinct (budget_categories df)"
    and "(cat, amt) \<in> set categories"
  shows "map amount (filter (budget_row_for cat) (set_monthly_budget categories df)) = [amt]"
proof -
  let ?new = "filter (\<lambda>p. fst p \<notin> set (budget_categories df)) categories"
  have m: "map_of categories cat = Some amt"
    using assms(1,3) by (rule map_of_is_SomeI)
  have old: "filter (budget_row_for cat) (map (form_update categories) df) =
      map (form_update categories) (filter (budget_row_for cat) df)"
    by (simp add: filter_map o_def)
  have new: "filter (budget_row_for cat) (map new_budget_row ?new) =
      map new_budget_row (filter (\<lambda>p. fst p = cat) ?new)"
    by (simp add: filter_map o_def budget_row_for_def new_budget_row_def)
  show ?thesis
  proof (cases "cat \<in> set (budget_categories df)")
    case True
    from single_budget_row [OF assms(2) True] obtain r where r: "filter (budget_row_for cat) df = [r]"
      by blast
    then have "r \<in> set (filter (budget_row_for cat) df)" by simp
    then have "budget_row_for cat r" by simp
    then have "amount (form_update categories r) = amt"
      using m by (simp add: form_update_def budget_row_for_def)
    moreover have "filter (\<lambda>p. fst p = cat) ?new = []"
      using True by (auto simp: filter_empty_conv)
    ultimately show ?thesis
      unfolding set_monthly_budget_explicit [OF assms(1)] by (simp add: old new r)
  next
    case False
    then have "\<forall>r \<in> set df. \<not> budget_row_for cat r"
      using bex_budget_row_df by blast
    then have none: "filter (budget_row_for cat) df = []"
      by (simp add: filter_empty_conv)
    have "filter (\<lambda>p. fst p = cat) ?new = filter (\<lambda>p. fst p = cat) categories"
      using False by (auto intro: filter_cong)
    also have "\<dots> = [(cat, amt)]"
      using assms(1,3) by (rule filter_fst_distinct)
    finally show ?thesis
      unfolding set_monthly_budget_explicit [OF assms(1)]
      by (simp add: old new none new_budget_row_def)
  qed
qed

lemma set_monthly_budget_frame:
  assumes "distinct (map fst categories)"
  shows "filter (\<lambda>r. \<not> (row_type r = ''budget'' \<and> category r \<in> fst ` set categories))
       (set_monthly_budget categories df) =
     filter (\<lambda>r. \<not> (row_type r = ''budget'' \<and> category r \<in> fst ` set categories)) df"
proof -
  let ?P = "\<lambda>r::'a flat_row. \<not> (row_type r = ''budget'' \<and> category r \<in> fst ` set categories)"
  have keep: "form_update categories r = r" if "?P r" for r
  proof (cases "row_type r = ''budget''")
    case True
    with that have "category r \<notin> fst ` set categories" by simp
    then have "map_of categories (category r) = None"
      by (simp add: map_of_eq_None_iff)
    then show ?thesis by (simp add: form_update_def)
  next
    case False
    then show ?thesis by (simp add: form_update_def)
  qed
  have "filter ?P (map (form_update categories) df) = map (form_update categories) (filter ?P df)"
    by (simp add: filter_map o_def)
  also have "\<dots> = filter ?P df"
    by (rule map_idI) (simp add: keep)
  finally have old: "filter ?P (map (form_update categories) df) = filter ?P df" .
  have new: "filter ?P (map new_budget_row
      (filter (\<lambda>p. fst p \<notin> set (budget_categories df)) categories)) = []"
    by (auto simp: filter_empty_conv new_budget_row_def)
  show ?thesis
    unfolding set_monthly_budget_explicit [OF assms] filter_append old new by simp
qed

lemma set_monthly_budget_length:
  assumes "distinct (map fst categories)"
  shows "length (set_monthly_budget categories df) =
     length df + length (filter (\<lambda>cat. cat \<notin> set (budget_categories df)) (map fst categories))"
  unfolding set_monthly_budget_explicit [OF assms] by (simp add: filter_map o_def)

lemma set_monthly_budget_again:
  assumes "distinct (map fst categories)"
  shows "set_monthly_budget categories (set_monthly_budget categories df) =
     set_monthly_budget categories df"
proof -
  let ?R = "set_monthly_budget categories df"
  let ?new = "filter (\<lambda>p. fst p \<notin> set (budget_categories df)) categories"
  have R: "?R = map (form_update categories) df @ map new_budget_row ?new"
    by (rule set_monthly_budget_explicit [OF assms])
  have cats: "budget_categories ?R = budget_categories df @ map fst ?new"
    unfolding R by (simp add: budget_categories_def filter_map o_def new_budget_row_def)
  have "fst p \<in> set (budget_categories ?R)" if "p \<in> set categories" for p
    using that unfolding cats by auto
  then have none: "filter (\<lambda>p. fst p \<notin> set (budget_categories ?R)) categories = []"
    by (simp add: filter_empty_conv)
  have stay: "form_update categories r = r" if "r \<in> set ?R" for r
  proof -
    from that consider r0 where "r = form_update categories r0"
      | p where "p \<in> set categories" "r = new_budget_row p"
      unfolding R by auto
    then show ?thesis
    proof cases
      case 1
      then show ?thesis by (simp add: form_update_idem)
    next
      case 2
      then have "(fst p, snd p) \<in> set categories" by simp
      with assms have "map_of categories (fst p) = Some (snd p)"
        by (rule map_of_is_SomeI)
      then show ?thesis
        unfolding 2 by (simp add: form_update_def new_budget_row_def)
    qed
  qed
  have "set_monthly_budget categories ?R = map (form_update categories) ?R"
    unfolding set_monthly_budget_explicit [OF assms, of ?R] none by simp
  also have "\<dots> = ?R"
    by (rule map_idI) (rule stay)
  finally show ?thesis .
qed

text \<open>
  Claim C6. Saving a budget entry is an upsert on the key (user, month, category). On a
  table that satisfies its uniqueness constraint, \<open>save_budget\<close> returns normally, keeps
  the keys unique, leaves exactly one entry under the saved key, whose amount is the new
  amount (not a sum with the old one), keeps every entry of another key as it was, and
  adds a row only if the key was absent. Saving the same entry a second time changes
  nothing. The budget form of the flat-file application does the same on the budget rows
  of the month's table, keyed by category, for all the categories submitted at once:
  every submitted category ends with exactly one budget row, holding the submitted
  amount; all other rows stay as they were and in their order; one row is added for each
  category that had none; and submitting the same form again changes nothing.
\<close>

theorem save_budget_upsert:
  "(distinct (map budget_key budgets) \<longrightarrow>
      fst (save_budget u m c a budgets) = Inr () \<and>
      distinct (map budget_key (snd (save_budget u m c a budgets))) \<and>
      map amount (filter (\<lambda>r. budget_key r = (u, m, c)) (snd (save_budget u m c a budgets))) = [a] \<and>
      filter (\<lambda>r. budget_key r \<noteq> (u, m, c)) (snd (save_budget u m c a budgets)) =
        filter (\<lambda>r. budget_key r \<noteq> (u, m, c)) budgets \<and>
      length (snd (save_budget u m c a budgets)) =
        (if (u, m, c) \<in> set (map budget_key budgets) then length budgets else length budgets + 1)) \<and>
   save_budget u m c a (snd (save_budget u m c a budgets)) = save_budget u m c a budgets \<and>
   (distinct (map fst categories) \<longrightarrow>
      filter (\<lambda>r. \<not> (row_type r = ''budget'' \<and> category r \<in> fst ` set categories))
          (set_monthly_budget categories df) =
        filter (\<lambda>r. \<not> (row_type r = ''budget'' \<and> category r \<in> fst ` set categories)) df \<and>
      length (set_monthly_budget categories df) =
        length df +
        length (filter (\<lambda>cat. cat \<notin> set (budget_categories df)) (map fst categories)) \<and>
      set_monthly_budget categories (set_monthly_budget categories df) =
        set_monthly_budget categories df \<and>
      (distinct (budget_categories df) \<longrightarrow>
         distinct (budget_categories (set_monthly_budget categories df)) \<and>
         (\<forall>(cat, amt) \<in> set categories.
            map amount (filter (budget_row_for cat) (set_monthly_budget categories df)) = [amt])))"
proof -
  have db: "distinct (map budget_key budgets) \<longrightarrow>
      fst (save_budget u m c a budgets) = Inr () \<and>
      distinct (map budget_key (snd (save_budget u m c a budgets))) \<and>
      map amount (filter (\<lambda>r. budget_key r = (u, m, c)) (snd (save_budget u m c a budgets))) = [a] \<and>
      filter (\<lambda>r. budget_key r \<noteq> (u, m, c)) (snd (save_budget u m c a budgets)) =
        filter (\<lambda>r. budget_key r \<noteq> (u, m, c)) budgets \<and>
      length (snd (save_budget u m c a budgets)) =
        (if (u, m, c) \<in> set (map budget_key budgets) then length budgets else length budgets + 1)"
    using save_budget_table [of budgets u m c a] by blast
  have flat: "filter (\<lambda>r. \<not> (row_type r = ''budget'' \<and> category r \<in> fst ` set categories))
          (set_monthly_budget categories df) =
        filter (\<lambda>r. \<not> (row_type r = ''budget'' \<and> category r \<in> fst ` set categories)) df \<and>
      length (set_monthly_budget categories df) =
        length df +
        length (filter (\<lambda>cat. cat \<notin> set (budget_categories df)) (map fst categories)) \<and>
      set_monthly_budget categories (set_monthly_budget categories df) =
        set_monthly_budget categories df \<and>
      (distinct (budget_categories df) \<longrightarrow>
         distinct (budget_categories (set_monthly_budget categories df)) \<and>
         (\<forall>(cat, amt) \<in> set categories.
            map amount (filter (budget_row_for cat) (set_monthly_budget categories df)) = [amt]))"
    if d: "distinct (map fst categories)"
  proof -
    have one: "distinct (budget_categories (set_monthly_budget categories df)) \<and>
         (\<forall>(cat, amt) \<in> set categories.
            map amount (filter (budget_row_for cat) (set_monthly_budget categories df)) = [amt])"
      if b: "distinct (budget_categories df)"
    proof
      show "distinct (budget_categories (set_monthly_budget categories df))"
        using d b by (rule set_monthly_budget_distinct)
      show "\<forall>(cat, amt) \<in> set categories.
            map amount (filter (budget_row_for cat) (set_monthly_budget categories df)) = [amt]"
        using set_monthly_budget_amounts [OF d b] by auto
    qed
    from one have imp: "distinct (budget_categories df) \<longrightarrow>
         distinct (budget_categories (set_monthly_budget categories df)) \<and>
         (\<forall>(cat, amt) \<in> set categories.
            map amount (filter (budget_row_for cat) (set_monthly_budget categories df)) = [amt])"
      by (rule impI)
    note fr = set_monthly_budget_frame [OF d, of df]
    note le = set_monthly_budget_length [OF d, of df]
    note ag = set_monthly_budget_again [OF d, of df]
    from fr le ag imp show ?thesis by (intro conjI)
  qed
  from flat have flat': "distinct (map fst categories) \<longrightarrow>
      filter (\<lambda>r. \<not> (row_type r = ''budget'' \<and> category r \<in> fst ` set categories))
          (set_monthly_budget categories df) =
        filter (\<lambda>r. \<not> (row_type r = ''budget'' \<and> category r \<in> fst ` set categories)) df \<and>
      length (set_monthly_budget categories df) =
        length df +
        length (filter (\<lambda>cat. cat \<notin> set (budget_categories df)) (map fst categories)) \<and>
      set_monthly_budget categories (set_monthly_budget categories df) =
        set_monthly_budget categories df \<and>
      (distinct (budget_categories df) \<longrightarrow>
         distinct (budget_categories (set_monthly_budget categories df)) \<and>
         (\<forall>(cat, amt) \<in> set categories.
            map amount (filter (budget_row_for cat) (set_monthly_budget categories df)) = [amt]))"
    by (rule impI)
  from db save_budget_idem [of u m c a budgets] flat' show ?thesis
    by (intro conjI)
qed

theorem save_budget_upsert_witness:
  "distinct (map budget_key ex_budgets) \<and>
   save_budget 1 ''2024-05'' ''Housing'' 950 ex_budgets =
     (Inr (), [\<lparr>category = ''Housing'', amount = 950, user_id = 1, month = ''2024-05''\<rparr>,
               \<lparr>category = ''Housing'', amount = 700, user_id = 2, month = ''2024-05''\<rparr>]) \<and>
   save_budget 1 ''2024-05'' ''Housing'' 950
       (snd (save_budget 1 ''2024-05'' ''Housing'' 950 ex_budgets)) =
     (Inr (), [\<lparr>category = ''Housing'', amount = 950, user_id = 1, month = ''2024-05''\<rparr>,
               \<lparr>category = ''Housing'', amount = 700, user_id = 2, month = ''2024-05''\<rparr>]) \<and>
   distinct (budget_categories ex_df) \<and>
   distinct (map fst [(''Housing'', 950::rat), (''Savings'', 100)]) \<and>
   set_monthly_budget [(''Housing'', 950), (''Savings'', 100)] ex_df =
     [\<lparr>category = ''Housing'', amount = 950, row_type = ''budget''\<rparr>,
      \<lparr>category = ''Housing'', amount = 20, row_type = ''actual''\<rparr>,
      \<lparr>category = ''Savings'', amount = 100, row_type = ''budget''\<rparr>] \<and>
   set_monthly_budget [(''Housing'', 950), (''Savings'', 100)]
       (set_monthly_budget [(''Housing'', 950), (''Savings'', 100)] ex_df) =
     [\<lparr>category = ''Housing'', amount = 950, row_type = ''budget''\<rparr>,
      \<lparr>category = ''Housing'', amount = 20, row_type = ''actual''\<rparr>,
      \<lparr>category = ''Savings'', amount = 100, row_type = ''budget''\<rparr>] \<and>
   map amount (filter (budget_row_for ''Savings'')
       (set_monthly_budget [(''Housing'', 950), (''Savings'', 100)] ex_df)) = [100]"
proof -
  have d: "distinct (map budget_key ex_budgets)"
    by (simp add: ex_budgets_def budget_key_def)
  have s: "save_budget 1 ''2024-05'' ''Housing'' 950 ex_budgets =
     (Inr (), [\<lparr>category = ''Housing'', amount = 950, user_id = 1, month = ''2024-05''\<rparr>,
               \<lparr>category = ''Housing'', amount = 700, user_id = 2, month = ''2024-05''\<rparr>])"
    by (simp add: save_budget_def ex_budgets_def budget_key_def)
  have f: "distinct (budget_categories ex_df)"
    "distinct (map fst [(''Housing'', 950::rat), (''Savings'', 100)])"
    by (simp_all add: budget_categories_def ex_df_def)
  have g: "set_monthly_budget [(''Housing'', 950), (''Savings'', 100)] ex_df =
     [\<lparr>category = ''Housing'', amount = 950, row_type = ''budget''\<rparr>,
      \<lparr>category = ''Housing'', amount = 20, row_type = ''actual''\<rparr>,
      \<lparr>category = ''Savings'', amount = 100, row_type = ''budget''\<rparr>]"
    by (simp add: set_monthly_budget_def ex_df_def budget_row_for_def)
  note t = save_budget_upsert [of ex_budgets 1 "''2024-05''" "''Housing''" 950
        "[(''Housing'', 950), (''Savings'', 100)]" ex_df]
  note again = t [THEN conjunct2, THEN conjunct1]
  note form = t [THEN conjunct2, THEN conjunct2, THEN mp, OF f(2)]
  note form_again = form [THEN conjunct2, THEN conjunct2, THEN conjunct1]
  note form_rows = form [THEN conjunct2, THEN conjunct2, THEN conjunct2, THEN mp, OF f(1),
      THEN conjunct2]
  from form_rows have "map amount (filter (budget_row_for ''Savings'')
       (set_monthly_budget [(''Housing'', 950), (''Savings'', 100)] ex_df)) = [100]"
    by simp
  then show ?thesis
    using d s f g again form_again by simp
qed

section \<open>Record store: expenses\<close>

lemma update_expense_nth:
  assumes "distinct (map id_col expenses)" and "i < length expenses"
  shows "map (\<lambda>r. if id_col r = id_col (expenses ! i) then r\<lparr>amount := a\<rparr> else r) expenses =
     expenses[i := (expenses ! i)\<lparr>amount := a\<rparr>]"
proof (rule nth_equalityI)
  show "length (map (\<lambda>r. if id_col r = id_col (expenses ! i) then r\<lparr>amount := a\<rparr> else r) expenses) =
      length (expenses[i := (expenses ! i)\<lparr>amount := a\<rparr>])"
    by simp
next
  fix j
  assume "j < length (map (\<lambda>r. if id_col r = id_col (expenses ! i) then r\<lparr>amount := a\<rparr> else r) expenses)"
  then have j: "j < length expenses" by simp
  have "id_col (expenses ! j) = id_col (expenses ! i) \<longleftrightarrow> j = i"
    using assms j nth_eq_iff_index_eq [of "map id_col expenses" j i] by simp
  then show "map (\<lambda>r. if id_col r = id_col (expenses ! i) then r\<lparr>amount := a\<rparr> else r) expenses ! j =
      expenses[i := (expenses ! i)\<lparr>amount := a\<rparr>] ! j"
    using j by (simp add: nth_list_update)
qed

lemma delete_expense_nth:
  assumes "distinct (map id_col expenses)" and "i < length expenses"
  shows "filter (\<lambda>r. id_col r \<noteq> id_col (expenses ! i)) expenses =
     take i expenses @ drop (Suc i) expenses"
proof -
  have split: "expenses = take i expenses @ expenses ! i # drop (Suc i) expenses"
    using assms(2) by (rule id_take_nth_drop)
  have "distinct (map id_col (take i expenses) @ id_col (expenses ! i) #
      map id_col (drop (Suc i) expenses))"
    using assms(1) split by (metis list.simps(9) map_append)
  then have "id_col (expenses ! i) \<notin> id_col ` set (take i expenses)"
    and "id_col (expenses ! i) \<notin> id_col ` set (drop (Suc i) expenses)"
    by simp_all
  then have "\<forall>r \<in> set (take i expenses). id_col r \<noteq> id_col (expenses ! i)"
    and "\<forall>r \<in> set (drop (Suc i) expenses). id_col r \<noteq> id_col (expenses ! i)"
    by (metis imageI)+
  then have "filter (\<lambda>r. id_col r \<noteq> id_col (expenses ! i)) (take i expenses) = take i expenses"
    and "filter (\<lambda>r. id_col r \<noteq> id_col (expenses ! i)) (drop (Suc i) expenses) =
      drop (Suc i) expenses"
    by (simp_all add: filter_id_conv)
  then have "filter (\<lambda>r. id_col r \<noteq> id_col (expenses ! i))
      (take i expenses @ expenses ! i # drop (Suc i) expenses) =
      take i expenses @ drop (Suc i) expenses"
    by simp
  with split show ?thesis by simp
qed

lemma absent_id_unchanged:
  assumes "expense_id \<notin> set (map id_col expenses)"
  shows "map (\<lambda>r. if id_col r = expense_id then r\<lparr>amount := a\<rparr> else r) expenses = expenses"
    and "filter (\<lambda>r. id_col r \<noteq> expense_id) expenses = expenses"
  using assms by (induction expenses) auto

text \<open>
  On the example table, which has the ids 1 and 2, updating or deleting the absent id 7
  returns \<open>None\<close> and leaves the table as it was: the caller receives what it receives
  for the present id 1, and nothing about the id being absent.
\<close>

theorem absent_expense_id_not_surfaced:
  "7 \<notin> set (map id_col ex_expenses) \<and> 1 \<in> set (map id_col ex_expenses) \<and>
   update_expense 7 5 ex_expenses = (Inr (), ex_expenses) \<and>
   delete_expense 7 ex_expenses = (Inr (), ex_expenses) \<and>
   fst (update_expense 7 5 ex_expenses) = fst (update_expense 1 5 ex_expenses) \<and>
   fst (delete_expense 7 ex_expenses) = fst (delete_expense 1 ex_expenses)"
  by (simp add: update_expense_def delete_expense_def sqlite_integer_def ex_expenses_def)

text \<open>
  Claim C7, as the code has it. For an expense id absent from the table, \<open>update_expense\<close>
  and \<open>delete_expense\<close> leave the table unchanged and report nothing about the id being
  absent: if the id fits a 64-bit SQLite integer they return \<open>None\<close>, as they do for an id
  that is present, a silent no-op; an id outside that range raises \<open>OverflowError\<close>,
  present or not. For an id present in a table with unique ids they act on exactly that
  entry: the update replaces its amount and the deletion removes it, and every other
  entry stays in place.
\<close>

theorem expense_mutation_by_id:
  "(sqlite_integer expense_id \<longrightarrow>
      fst (update_expense expense_id new_amount expenses) = Inr () \<and>
      fst (delete_expense expense_id expenses) = Inr ()) \<and>
   (\<not> sqlite_integer expense_id \<longrightarrow>
      update_expense expense_id new_amount expenses = (Inl OverflowError, expenses) \<and>
      delete_expense expense_id expenses = (Inl OverflowError, expenses)) \<and>
   (expense_id \<notin> set (map id_col expenses) \<longrightarrow>
      snd (update_expense expense_id new_amount expenses) = expenses \<and>
      snd (delete_expense expense_id expenses) = expenses) \<and>
   (sqlite_integer expense_id \<and> distinct (map id_col expenses) \<and> i < length expenses \<and>
    id_col (expenses ! i) = expense_id \<longrightarrow>
      snd (update_expense expense_id new_amount expenses) =
        expenses[i := (expenses ! i)\<lparr>amount := new_amount\<rparr>] \<and>
      snd (delete_expense expense_id expenses) = take i expenses @ drop (Suc i) expenses)"
  using absent_id_unchanged(1) [of expense_id expenses new_amount]
    absent_id_unchanged(2) [of expense_id expenses]
    update_expense_nth [of expenses i new_amount] delete_expense_nth [of expenses i]
  by (auto simp: update_expense_def delete_expense_def)

theorem expense_mutation_by_id_witness:
  "7 \<notin> set (map id_col ex_expenses) \<and> sqlite_integer 7 \<and>
   update_expense 7 5 ex_expenses = (Inr (), ex_expenses) \<and>
   delete_expense 7 ex_expenses = (Inr (), ex_expenses) \<and>
   \<not> sqlite_integer (2 ^ 63) \<and>
   update_expense (2 ^ 63) 5 ex_expenses = (Inl OverflowError, ex_expenses) \<and>
   delete_expense (2 ^ 63) ex_expenses = (Inl OverflowError, ex_expenses) \<and>
   sqlite_integer 2 \<and> distinct (map id_col ex_expenses) \<and> 1 < length ex_expenses \<and>
   id_col (ex_expenses ! 1) = 2 \<and>
   update_expense 2 5 ex_expenses = (Inr (), ex_expenses[1 := (ex_expenses ! 1)\<lparr>amount := 5\<rparr>]) \<and>
   delete_expense 2 ex_expenses = (Inr (), take 1 ex_expenses @ drop (Suc 1) ex_expenses)"
proof -
  have a: "7 \<notin> set (map id_col ex_expenses)" "sqlite_integer 7" "\<not> sqlite_integer (2 ^ 63)"
    "sqlite_integer 2"
    and p: "distinct (map id_col ex_expenses)" "1 < length ex_expenses" "id_col (ex_expenses ! 1) = 2"
    by (simp_all add: ex_expenses_def sqlite_integer_def)
  show ?thesis
    using expense_mutation_by_id [of 7 5 ex_expenses 0]
      expense_mutation_by_id [of "2 ^ 63" 5 ex_expenses 0]
      expense_mutation_by_id [of 2 5 ex_expenses 1] a p
    by (simp add: prod_eq_iff)
qed

end
